theory Spec2Isabelle
  imports
    Main
    "HOL-Library.Char_ord"
    "HOL-Library.List_Lexorder"
    "HOL-Library.Product_Lexorder"
    "HOL-Library.Multiset"
begin

section \<open>The RSS feed health checker (health\_checker/main.go)\<close>

text \<open>
  The program reads a list of feed URLs, fetches a bounded prefix of every feed with at
  most five fetches in flight, classifies each response (\<open>healthy\<close>,
  \<open>not an rss feed\<close>, \<open>broken\<close>), extracts the most recent item date, and
  writes the results ranked by health, domain and URL.

  A Go \<open>string\<close> is a sequence of bytes and is modelled as \<^typ>\<open>string\<close>, a list of
  8-bit characters. The functions of Go's standard library that \<open>main.go\<close> calls are
  modelled by their effect on bytes; where the library goes through the Unicode tables
  (letters and white space outside ASCII) the model keeps the byte, which is what the
  library does on every ASCII input.
\<close>

subsection \<open>Package strings\<close>

definition isUpper :: "char \<Rightarrow> bool" where
  "isUpper c = (65 \<le> (of_char c :: nat) \<and> (of_char c :: nat) \<le> 90)"

text \<open>\<open>c + ('a' - 'A')\<close> on the upper-case ASCII letters.\<close>

definition lowerByte :: "char \<Rightarrow> char" where
  "lowerByte c = (if isUpper c then char_of ((of_char c :: nat) + 32) else c)"

definition ToLower :: "string \<Rightarrow> string" where
  "ToLower s = map lowerByte s"

definition HasPrefix :: "string \<Rightarrow> string \<Rightarrow> bool" where
  "HasPrefix s p = (length p \<le> length s \<and> take (length p) s = p)"

definition HasSuffix :: "string \<Rightarrow> string \<Rightarrow> bool" where
  "HasSuffix s p = (length p \<le> length s \<and> drop (length s - length p) s = p)"

text \<open>\<open>strings.Contains(s, substr)\<close>: some suffix of \<open>s\<close> starts with \<open>substr\<close>.\<close>

fun Contains :: "string \<Rightarrow> string \<Rightarrow> bool" where
  "Contains [] sub = (sub = [])"
| "Contains (c # cs) sub = (HasPrefix (c # cs) sub \<or> Contains cs sub)"

definition TrimPrefix :: "string \<Rightarrow> string \<Rightarrow> string" where
  "TrimPrefix s p = (if HasPrefix s p then drop (length p) s else s)"

definition TrimSuffix :: "string \<Rightarrow> string \<Rightarrow> string" where
  "TrimSuffix s p = (if HasSuffix s p then take (length s - length p) s else s)"

text \<open>The ASCII white space of \<open>strings.TrimSpace\<close>: tab, line feed, vertical tab, form
  feed, carriage return and space.\<close>

definition isSpace :: "char \<Rightarrow> bool" where
  "isSpace c = ((of_char c :: nat) \<in> {9, 10, 11, 12, 13, 32})"

definition TrimSpace :: "string \<Rightarrow> string" where
  "TrimSpace s = rev (dropWhile isSpace (rev (dropWhile isSpace s)))"

text \<open>
  The reading of "contains, case-insensitively" that the claims use: some substring of
  \<open>s\<close> has the length of \<open>m\<close> and agrees with it byte for byte up to the case of ASCII
  letters.
\<close>

definition EqualFold :: "string \<Rightarrow> string \<Rightarrow> bool" where
  "EqualFold a b = (length a = length b \<and> ToLower a = ToLower b)"

definition containsFold :: "string \<Rightarrow> string \<Rightarrow> bool" where
  "containsFold s m = (\<exists>i. i + length m \<le> length s \<and> EqualFold (take (length m) (drop i s)) m)"

subsection \<open>The date tag expression\<close>

text \<open>
  \<open>dateTagRE\<close> is
  \<^verbatim>\<open>(?is)<(?:pubDate|published|updated|dc:date)>(.*?)</(?:pubDate|published|updated|dc:date)>\<close>.
  A match starts at an opening tag (letters in any case), its group is the shortest text
  up to the next closing tag (any of the four, \<open>.\<close> matches a newline too), and the
  search for the next match resumes behind that closing tag.
\<close>

definition tagNames :: "string list" where
  "tagNames = [''pubDate'', ''published'', ''updated'', ''dc:date'']"

definition openTags :: "string list" where
  "openTags = map (\<lambda>n. ''<'' @ n @ ''>'') tagNames"

definition closeTags :: "string list" where
  "closeTags = map (\<lambda>n. ''</'' @ n @ ''>'') tagNames"

text \<open>The length of the first alternative of \<open>tags\<close> that matches at the start of \<open>s\<close>.\<close>

fun matchTag :: "string list \<Rightarrow> string \<Rightarrow> nat option" where
  "matchTag [] s = None"
| "matchTag (t # ts) s =
     (if length t \<le> length s \<and> EqualFold (take (length t) s) t then Some (length t)
      else matchTag ts s)"

text \<open>The lazy group: the text before the first closing tag, and that tag's length.\<close>

fun findClose :: "string \<Rightarrow> (string \<times> nat) option" where
  "findClose [] = None"
| "findClose (c # cs) =
     (case matchTag closeTags (c # cs) of
        Some n \<Rightarrow> Some ([], n)
      | None \<Rightarrow> (case findClose cs of
                  Some (g, n) \<Rightarrow> Some (c # g, n)
                | None \<Rightarrow> None))"

lemma matchTag_pos: "matchTag ts s = Some n \<Longrightarrow> \<forall>t \<in> set ts. t \<noteq> [] \<Longrightarrow> 0 < n \<and> n \<le> length s"
  by (induction ts) (auto split: if_splits)

lemma findClose_length: "findClose s = Some (g, n) \<Longrightarrow> length g + n \<le> length s"
proof (induction s arbitrary: g n)
  case Nil
  then show ?case by simp
next
  case (Cons c cs)
  show ?case
  proof (cases "matchTag closeTags (c # cs)")
    case (Some k)
    have "\<forall>t \<in> set closeTags. t \<noteq> []"
      by (simp add: closeTags_def tagNames_def)
    with Some have "k \<le> length (c # cs)"
      using matchTag_pos by blast
    with Some Cons.prems show ?thesis by simp
  next
    case None
    with Cons.prems obtain g' where "findClose cs = Some (g', n)" "g = c # g'"
      by (auto split: option.splits)
    with Cons.IH show ?thesis by fastforce
  qed
qed

text \<open>\<open>dateTagRE.FindAllStringSubmatch(body, -1)\<close>: every match as the list of the whole
  match and its one group.\<close>

function FindAllStringSubmatch :: "string \<Rightarrow> string list list" where
  "FindAllStringSubmatch [] = []"
| "FindAllStringSubmatch (c # cs) =
     (case matchTag openTags (c # cs) of
        None \<Rightarrow> FindAllStringSubmatch cs
      | Some n \<Rightarrow>
          (case findClose (drop n (c # cs)) of
             None \<Rightarrow> FindAllStringSubmatch cs
           | Some (g, k) \<Rightarrow>
               [take (n + length g + k) (c # cs), g]
                 # FindAllStringSubmatch (drop (n + length g + k) (c # cs))))"
  by pat_completeness auto
termination
proof (relation "measure length")
  show "wf (measure length)" by simp
next
  fix c :: char and cs :: string
  show "(cs, c # cs) \<in> measure length" by simp
next
  fix c :: char and cs :: string and n :: nat
  show "(cs, c # cs) \<in> measure length" by simp
next
  fix c :: char and cs :: string and n k :: nat and g :: string
  assume m: "matchTag openTags (c # cs) = Some n"
  have "\<forall>t \<in> set openTags. t \<noteq> []"
    by (simp add: openTags_def tagNames_def)
  with m have "0 < n" using matchTag_pos by blast
  then show "(drop (n + length g + k) (c # cs), c # cs) \<in> measure length"
    by simp
qed

subsection \<open>Package time\<close>

text \<open>
  A \<open>time.Time\<close> is an instant: seconds and nanoseconds since 0001-01-01T00:00:00Z, the
  zero \<open>Time\<close>. The program only compares instants (\<open>After\<close>, \<open>IsZero\<close>) and prints
  them in UTC, so the location a \<open>Time\<close> carries is left out.
\<close>

record Time =
  sec :: int
  nsec :: int

definition zeroTime :: Time where
  "zeroTime = \<lparr>sec = 0, nsec = 0\<rparr>"

definition After :: "Time \<Rightarrow> Time \<Rightarrow> bool" where
  "After t u = (sec u < sec t \<or> (sec t = sec u \<and> nsec u < nsec t))"

definition IsZero :: "Time \<Rightarrow> bool" where
  "IsZero t = (sec t = 0 \<and> nsec t = 0)"

definition isLeap :: "int \<Rightarrow> bool" where
  "isLeap y = (y mod 4 = 0 \<and> (y mod 100 \<noteq> 0 \<or> y mod 400 = 0))"

definition daysIn :: "int \<Rightarrow> int \<Rightarrow> int" where
  "daysIn m y =
     (if m = 2 then (if isLeap y then 29 else 28)
      else if m = 4 \<or> m = 6 \<or> m = 9 \<or> m = 11 then 30 else 31)"

text \<open>Days from 0001-01-01 to the given day of the proleptic Gregorian calendar.\<close>

definition daysSinceZero :: "int \<Rightarrow> int \<Rightarrow> int \<Rightarrow> int" where
  "daysSinceZero y m d =
     (let y' = (if m \<le> 2 then y - 1 else y);
          era = y' div 400;
          yoe = y' - era * 400;
          doy = (153 * (if 2 < m then m - 3 else m + 9) + 2) div 5 + d - 1;
          doe = yoe * 365 + yoe div 4 - yoe div 100 + doy
      in era * 146097 + doe - 306)"

text \<open>\<open>time.Date(year, month, day, hour, min, sec, nsec, time.UTC)\<close> on fields in range.\<close>

definition Date :: "int \<Rightarrow> int \<Rightarrow> int \<Rightarrow> int \<Rightarrow> int \<Rightarrow> int \<Rightarrow> int \<Rightarrow> Time" where
  "Date y m d hh mm ss ns =
     \<lparr>sec = daysSinceZero y m d * 86400 + hh * 3600 + mm * 60 + ss, nsec = ns\<rparr>"

text \<open>The year, month and day of a day count, the inverse of \<open>daysSinceZero\<close>.\<close>

definition civil :: "int \<Rightarrow> int \<times> int \<times> int" where
  "civil n =
     (let z = n + 306;
          era = z div 146097;
          doe = z - era * 146097;
          yoe = (doe - doe div 1460 + doe div 36524 - doe div 146096) div 365;
          doy = doe - (365 * yoe + yoe div 4 - yoe div 100);
          mp = (5 * doy + 2) div 153;
          d = doy - (153 * mp + 2) div 5 + 1;
          m = (if mp < 10 then mp + 3 else mp - 9);
          y = yoe + era * 400
      in (if m \<le> 2 then y + 1 else y, m, d))"

fun decimal :: "nat \<Rightarrow> string" where
  "decimal n =
     (if n < 10 then [char_of (48 + n)]
      else decimal (n div 10) @ [char_of (48 + n mod 10)])"

declare decimal.simps [simp del]

text \<open>\<open>appendInt(b, x, width)\<close>: the decimal digits of \<open>x\<close>, zero-padded to \<open>width\<close>.\<close>

definition appendInt :: "int \<Rightarrow> nat \<Rightarrow> string" where
  "appendInt x width =
     (let ds = decimal (nat \<bar>x\<bar>)
      in (if x < 0 then ''-'' else []) @ replicate (width - length ds) (CHR ''0'') @ ds)"

text \<open>\<open>t.UTC().Format(time.RFC3339)\<close>, the layout \<^verbatim>\<open>2006-01-02T15:04:05Z07:00\<close> in UTC.\<close>

definition UTC_Format_RFC3339 :: "Time \<Rightarrow> string" where
  "UTC_Format_RFC3339 t =
     (let days = sec t div 86400;
          rest = sec t mod 86400;
          (y, m, d) = civil days
      in appendInt y 4 @ ''-'' @ appendInt m 2 @ ''-'' @ appendInt d 2 @ ''T''
         @ appendInt (rest div 3600) 2 @ '':'' @ appendInt (rest mod 3600 div 60) 2 @ '':''
         @ appendInt (rest mod 60) 2 @ ''Z'')"

subsection \<open>Layouts and \<open>time.Parse\<close>\<close>

text \<open>
  A layout is kept as the sequence of chunks that \<open>nextStdChunk\<close> cuts it into: literal
  text and the standard elements. Only the elements of the layouts that
  \<open>parseDateGuess\<close> uses occur.
\<close>

datatype std =
    stdLongYear | stdYear | stdMonth | stdZeroMonth | stdWeekDay | stdZeroDay
  | stdHour | stdZeroMinute | stdZeroSecond | stdTZ | stdNumTZ | stdISO8601ColonTZ
  | stdFracSecond9

datatype chunk = Lit string | Std std

type_synonym layout = "chunk list"

text \<open>\<^verbatim>\<open>Mon, 02 Jan 2006 15:04:05 MST\<close>\<close>

definition RFC1123 :: layout where
  "RFC1123 =
     [Std stdWeekDay, Lit '', '', Std stdZeroDay, Lit '' '', Std stdMonth, Lit '' '',
      Std stdLongYear, Lit '' '', Std stdHour, Lit '':'', Std stdZeroMinute, Lit '':'',
      Std stdZeroSecond, Lit '' '', Std stdTZ]"

text \<open>\<^verbatim>\<open>Mon, 02 Jan 2006 15:04:05 -0700\<close>\<close>

definition RFC1123Z :: layout where
  "RFC1123Z =
     [Std stdWeekDay, Lit '', '', Std stdZeroDay, Lit '' '', Std stdMonth, Lit '' '',
      Std stdLongYear, Lit '' '', Std stdHour, Lit '':'', Std stdZeroMinute, Lit '':'',
      Std stdZeroSecond, Lit '' '', Std stdNumTZ]"

text \<open>\<^verbatim>\<open>02 Jan 06 15:04 MST\<close>\<close>

definition RFC822 :: layout where
  "RFC822 =
     [Std stdZeroDay, Lit '' '', Std stdMonth, Lit '' '', Std stdYear, Lit '' '',
      Std stdHour, Lit '':'', Std stdZeroMinute, Lit '' '', Std stdTZ]"

text \<open>\<^verbatim>\<open>02 Jan 06 15:04 -0700\<close>\<close>

definition RFC822Z :: layout where
  "RFC822Z =
     [Std stdZeroDay, Lit '' '', Std stdMonth, Lit '' '', Std stdYear, Lit '' '',
      Std stdHour, Lit '':'', Std stdZeroMinute, Lit '' '', Std stdNumTZ]"

text \<open>\<^verbatim>\<open>2006-01-02T15:04:05Z07:00\<close>\<close>

definition RFC3339 :: layout where
  "RFC3339 =
     [Std stdLongYear, Lit ''-'', Std stdZeroMonth, Lit ''-'', Std stdZeroDay, Lit ''T'',
      Std stdHour, Lit '':'', Std stdZeroMinute, Lit '':'', Std stdZeroSecond,
      Std stdISO8601ColonTZ]"

text \<open>\<^verbatim>\<open>2006-01-02T15:04:05.999999999Z07:00\<close>\<close>

definition RFC3339Nano :: layout where
  "RFC3339Nano =
     [Std stdLongYear, Lit ''-'', Std stdZeroMonth, Lit ''-'', Std stdZeroDay, Lit ''T'',
      Std stdHour, Lit '':'', Std stdZeroMinute, Lit '':'', Std stdZeroSecond,
      Std stdFracSecond9, Std stdISO8601ColonTZ]"

text \<open>\<^verbatim>\<open>2006-01-02 15:04:05\<close>\<close>

definition layoutDateTime :: layout where
  "layoutDateTime =
     [Std stdLongYear, Lit ''-'', Std stdZeroMonth, Lit ''-'', Std stdZeroDay, Lit '' '',
      Std stdHour, Lit '':'', Std stdZeroMinute, Lit '':'', Std stdZeroSecond]"

text \<open>\<^verbatim>\<open>02 Jan 2006\<close>\<close>

definition layoutDayMonthYear :: layout where
  "layoutDayMonthYear =
     [Std stdZeroDay, Lit '' '', Std stdMonth, Lit '' '', Std stdLongYear]"

definition isDigit :: "char \<Rightarrow> bool" where
  "isDigit c = (48 \<le> (of_char c :: nat) \<and> (of_char c :: nat) \<le> 57)"

definition digitVal :: "char \<Rightarrow> int" where
  "digitVal c = int (of_char c) - 48"

definition digitsVal :: "string \<Rightarrow> int" where
  "digitsVal s = fold (\<lambda>c n. n * 10 + digitVal c) s 0"

text \<open>\<open>getnum(s, fixed)\<close>: one or two leading digits, two when \<open>fixed\<close>.\<close>

definition getnum :: "string \<Rightarrow> bool \<Rightarrow> (int \<times> string) option" where
  "getnum s fixed =
     (case s of
        [] \<Rightarrow> None
      | a # r \<Rightarrow>
          if \<not> isDigit a then None
          else (case r of
                  [] \<Rightarrow> if fixed then None else Some (digitVal a, r)
                | b # r' \<Rightarrow>
                    if \<not> isDigit b then (if fixed then None else Some (digitVal a, r))
                    else Some (digitVal a * 10 + digitVal b, r')))"

text \<open>\<open>atoi(s)\<close>: an optional sign and digits up to the end; no digit at all gives 0.\<close>

definition atoi :: "string \<Rightarrow> int option" where
  "atoi s =
     (let neg = (s \<noteq> [] \<and> hd s = CHR ''-'');
          r = (if s \<noteq> [] \<and> (hd s = CHR ''-'' \<or> hd s = CHR ''+'') then tl s else s)
      in if list_all isDigit r then Some (if neg then - digitsVal r else digitsVal r)
         else None)"

text \<open>\<open>cutspace\<close> and \<open>skip(value, prefix)\<close>: a space of the layout stands for any
  number of spaces of the value; every other byte has to be there.\<close>

definition cutspace :: "string \<Rightarrow> string" where
  "cutspace s = dropWhile (\<lambda>c. c = CHR '' '') s"

function skip :: "string \<Rightarrow> string \<Rightarrow> string option" where
  "skip val [] = Some val"
| "skip val (p # ps) =
     (if p = CHR '' '' then
        (if val \<noteq> [] \<and> hd val \<noteq> CHR '' '' then None
         else skip (cutspace val) (cutspace (p # ps)))
      else if val = [] \<or> hd val \<noteq> p then None
      else skip (tl val) ps)"
  by pat_completeness auto
termination
proof (relation "measure (\<lambda>(val, pre). length pre)")
  show "wf (measure (\<lambda>(val, pre). length pre))" by simp
next
  fix val :: string and p :: char and ps :: string
  assume "p = CHR '' ''"
  then have "length (cutspace (p # ps)) \<le> length ps"
    by (simp add: cutspace_def length_dropWhile_le)
  then show "((cutspace val, cutspace (p # ps)), (val, p # ps)) \<in> measure (\<lambda>(val, pre). length pre)"
    by simp
next
  fix val :: string and p :: char and ps :: string
  show "((tl val, ps), (val, p # ps)) \<in> measure (\<lambda>(val, pre). length pre)"
    by simp
qed

text \<open>\<open>match\<close>: equal up to the case of ASCII letters; the names of the tables consist of
  letters only.\<close>

definition isLetter :: "char \<Rightarrow> bool" where
  "isLetter c = (isUpper c \<or> (97 \<le> (of_char c :: nat) \<and> (of_char c :: nat) \<le> 122))"

definition matchByte :: "char \<Rightarrow> char \<Rightarrow> bool" where
  "matchByte c1 c2 = (c1 = c2 \<or> (isLetter c1 \<and> isLetter c2 \<and> lowerByte c1 = lowerByte c2))"

fun lookupFrom :: "int \<Rightarrow> string list \<Rightarrow> string \<Rightarrow> (int \<times> string) option" where
  "lookupFrom i [] val = None"
| "lookupFrom i (v # vs) val =
     (if length v \<le> length val \<and> list_all2 matchByte (take (length v) val) v
      then Some (i, drop (length v) val)
      else lookupFrom (i + 1) vs val)"

definition lookup :: "string list \<Rightarrow> string \<Rightarrow> (int \<times> string) option" where
  "lookup tab val = lookupFrom 0 tab val"

definition shortDayNames :: "string list" where
  "shortDayNames = [''Sun'', ''Mon'', ''Tue'', ''Wed'', ''Thu'', ''Fri'', ''Sat'']"

definition shortMonthNames :: "string list" where
  "shortMonthNames =
     [''Jan'', ''Feb'', ''Mar'', ''Apr'', ''May'', ''Jun'',
      ''Jul'', ''Aug'', ''Sep'', ''Oct'', ''Nov'', ''Dec'']"

text \<open>\<open>parseSignedOffset\<close>, \<open>parseGMT\<close> and \<open>parseTimeZone\<close>: the number of bytes of a
  time zone abbreviation at the start of the value.\<close>

definition parseSignedOffset :: "string \<Rightarrow> nat" where
  "parseSignedOffset val =
     (if val = [] \<or> (hd val \<noteq> CHR ''-'' \<and> hd val \<noteq> CHR ''+'') then 0
      else (let ds = takeWhile isDigit (tl val)
            in if ds = [] \<or> 23 < digitsVal ds then 0 else 1 + length ds))"

definition parseGMT :: "string \<Rightarrow> nat" where
  "parseGMT val = (if drop 3 val = [] then 3 else 3 + parseSignedOffset (drop 3 val))"

definition parseTimeZone :: "string \<Rightarrow> nat option" where
  "parseTimeZone val =
     (if length val < 3 then None
      else if 4 \<le> length val \<and> (take 4 val = ''ChST'' \<or> take 4 val = ''MeST'') then Some 4
      else if take 3 val = ''GMT'' then Some (parseGMT val)
      else if hd val = CHR ''+'' \<or> hd val = CHR ''-'' then
        (let l = parseSignedOffset val in if 0 < l then Some l else None)
      else (let nUpper = length (takeWhile isUpper (take 6 val))
            in if nUpper = 5 then (if val ! 4 = CHR ''T'' then Some 5 else None)
               else if nUpper = 4 then
                 (if val ! 3 = CHR ''T'' \<or> take 4 val = ''WITA'' then Some 4 else None)
               else if nUpper = 3 then Some 3
               else None))"

text \<open>\<open>parseNanoseconds(value, nbytes)\<close> on a value that starts with a period or comma
  followed by \<open>nbytes - 1\<close> digits: at most nine digits count.\<close>

definition commaOrPeriod :: "char \<Rightarrow> bool" where
  "commaOrPeriod c = (c = CHR ''.'' \<or> c = CHR '','')"

definition parseNanoseconds :: "string \<Rightarrow> nat \<Rightarrow> int" where
  "parseNanoseconds val nbytes =
     (let nb = min nbytes 10
      in digitsVal (drop 1 (take nb val)) * 10 ^ (10 - nb))"

text \<open>The fields that \<open>parse\<close> collects. \<open>zUTC\<close> stands for \<open>z = UTC\<close>, an offset of
  \<open>None\<close> for the \<open>zoneOffset\<close> of \<open>-1\<close> that means "no offset seen".\<close>

record fields =
  year :: int
  month :: int
  day :: int
  hour :: int
  minute :: int
  second :: int
  nanos :: int
  zUTC :: bool
  zoneOffset :: "int option"
  zoneName :: string

definition noFields :: fields where
  "noFields =
     \<lparr>year = 0, month = -1, day = -1, hour = 0, minute = 0, second = 0, nanos = 0,
      zUTC = False, zoneOffset = None, zoneName = []\<rparr>"

text \<open>The next standard element of the rest of the layout, where \<open>parse\<close> looks ahead.\<close>

fun nextStd :: "layout \<Rightarrow> std option" where
  "nextStd [] = None"
| "nextStd (Std s # rest) = Some s"
| "nextStd (Lit p # rest) = nextStd rest"

text \<open>A fractional second in the value: the separator and all the digits behind it.\<close>

definition fracSecond :: "fields \<Rightarrow> string \<Rightarrow> fields \<times> string" where
  "fracSecond f val =
     (let n = 1 + length (takeWhile isDigit (tl val))
      in (f\<lparr>nanos := parseNanoseconds val n\<rparr>, drop n val))"

definition hasFrac :: "string \<Rightarrow> bool" where
  "hasFrac val = (2 \<le> length val \<and> commaOrPeriod (hd val) \<and> isDigit (val ! 1))"

text \<open>A numeric zone: sign, two digits of hours, \<open>sep\<close> bytes of separator, two digits of
  minutes.\<close>

definition numZone :: "fields \<Rightarrow> string \<Rightarrow> nat \<Rightarrow> (fields \<times> string) option" where
  "numZone f val sep =
     (if length val < 5 + sep then None
      else if sep = 1 \<and> val ! 3 \<noteq> CHR '':'' then None
      else (case getnum (take 2 (drop 1 val)) True of
              None \<Rightarrow> None
            | Some (hr, _) \<Rightarrow>
                (case getnum (take 2 (drop (3 + sep) val)) True of
                   None \<Rightarrow> None
                 | Some (mm, _) \<Rightarrow>
                     if 24 < hr \<or> 60 < mm then None
                     else if hd val = CHR ''+'' then
                       Some (f\<lparr>zoneOffset := Some ((hr * 60 + mm) * 60)\<rparr>, drop (5 + sep) val)
                     else if hd val = CHR ''-'' then
                       Some (f\<lparr>zoneOffset := Some (- ((hr * 60 + mm) * 60))\<rparr>, drop (5 + sep) val)
                     else None)))"

text \<open>One round of the loop of \<open>parse\<close>: the standard element \<open>s\<close> against the value;
  \<open>rest\<close> is the layout behind it. \<open>None\<close> is any of its errors.\<close>

fun parseStd :: "std \<Rightarrow> layout \<Rightarrow> fields \<Rightarrow> string \<Rightarrow> (fields \<times> string) option" where
  "parseStd stdYear rest f val =
     (if length val < 2 then None
      else (case atoi (take 2 val) of
              None \<Rightarrow> None
            | Some y \<Rightarrow> Some (f\<lparr>year := (if 69 \<le> y then y + 1900 else y + 2000)\<rparr>, drop 2 val)))"
| "parseStd stdLongYear rest f val =
     (if length val < 4 \<or> \<not> isDigit (hd val) then None
      else (case atoi (take 4 val) of
              None \<Rightarrow> None
            | Some y \<Rightarrow> Some (f\<lparr>year := y\<rparr>, drop 4 val)))"
| "parseStd stdMonth rest f val =
     (case lookup shortMonthNames val of
        None \<Rightarrow> None
      | Some (i, v) \<Rightarrow> Some (f\<lparr>month := i + 1\<rparr>, v))"
| "parseStd stdZeroMonth rest f val =
     (case getnum val True of
        None \<Rightarrow> None
      | Some (m, v) \<Rightarrow> if m \<le> 0 \<or> 12 < m then None else Some (f\<lparr>month := m\<rparr>, v))"
| "parseStd stdWeekDay rest f val =
     (case lookup shortDayNames val of
        None \<Rightarrow> None
      | Some (i, v) \<Rightarrow> Some (f, v))"
| "parseStd stdZeroDay rest f val =
     (case getnum val True of
        None \<Rightarrow> None
      | Some (d, v) \<Rightarrow> Some (f\<lparr>day := d\<rparr>, v))"
| "parseStd stdHour rest f val =
     (case getnum val False of
        None \<Rightarrow> None
      | Some (h, v) \<Rightarrow> if h < 0 \<or> 24 \<le> h then None else Some (f\<lparr>hour := h\<rparr>, v))"
| "parseStd stdZeroMinute rest f val =
     (case getnum val True of
        None \<Rightarrow> None
      | Some (m, v) \<Rightarrow> if m < 0 \<or> 60 \<le> m then None else Some (f\<lparr>minute := m\<rparr>, v))"
| "parseStd stdZeroSecond rest f val =
     (case getnum val True of
        None \<Rightarrow> None
      | Some (s, v) \<Rightarrow>
          if s < 0 \<or> 60 \<le> s then None
          else if hasFrac v \<and> nextStd rest \<noteq> Some stdFracSecond9 then
            Some (fracSecond (f\<lparr>second := s\<rparr>) v)
          else Some (f\<lparr>second := s\<rparr>, v))"
| "parseStd stdFracSecond9 rest f val =
     (if hasFrac val then Some (fracSecond f val) else Some (f, val))"
| "parseStd stdNumTZ rest f val = numZone f val 0"
| "parseStd stdISO8601ColonTZ rest f val =
     (if val \<noteq> [] \<and> hd val = CHR ''Z'' then Some (f\<lparr>zUTC := True\<rparr>, tl val)
      else numZone f val 1)"
| "parseStd stdTZ rest f val =
     (if 3 \<le> length val \<and> take 3 val = ''UTC'' then Some (f\<lparr>zUTC := True\<rparr>, drop 3 val)
      else (case parseTimeZone val of
              None \<Rightarrow> None
            | Some n \<Rightarrow> Some (f\<lparr>zoneName := take n val\<rparr>, drop n val)))"

text \<open>
  After the loop: the day of the month has to exist, and the instant is the one of the
  wall clock in UTC, moved by a numeric offset when there was one. A zone abbreviation
  other than \<open>UTC\<close> is resolved as on a host whose local zone does not define it: the
  time gets a fabricated location of that name and its wall clock is read in UTC.
\<close>

definition finish :: "fields \<Rightarrow> Time option" where
  "finish f =
     (let m = (if month f < 0 then 1 else month f);
          d = (if day f < 0 then 1 else day f);
          t = Date (year f) m d (hour f) (minute f) (second f) (nanos f)
      in if d < 1 \<or> daysIn m (year f) < d then None
         else if zUTC f then Some t
         else (case zoneOffset f of
                 Some off \<Rightarrow> Some (t\<lparr>sec := sec t - off\<rparr>)
               | None \<Rightarrow> Some t))"

fun parseChunks :: "layout \<Rightarrow> fields \<Rightarrow> string \<Rightarrow> Time option" where
  "parseChunks [] f val = (if val \<noteq> [] then None else finish f)"
| "parseChunks (Lit p # rest) f val =
     (case skip val p of
        None \<Rightarrow> None
      | Some v \<Rightarrow> parseChunks rest f v)"
| "parseChunks (Std s # rest) f val =
     (case parseStd s rest f val of
        None \<Rightarrow> None
      | Some (f', v) \<Rightarrow> parseChunks rest f' v)"

text \<open>\<open>time.Parse(layout, value)\<close>; \<open>None\<close> is its error.\<close>

definition time_Parse :: "layout \<Rightarrow> string \<Rightarrow> Time option" where
  "time_Parse l val = parseChunks l noFields val"

subsection \<open>parseDateGuess\<close>

text \<open>
  The errors of the program. \<open>time.Parse\<close> belongs to Go's library and depends on the
  host's local zone, so \<open>parseDateGuess\<close> and its callers take it as the parameter
  \<open>Parse\<close>; \<open>time_Parse\<close> above is the instance that the examples evaluate.
\<close>

datatype error = InvalidURL | Timeout | TransportError | ReadError | DateUnparseable

definition layouts :: "layout list" where
  "layouts =
     [RFC1123, RFC1123Z, RFC822, RFC822Z, RFC3339, RFC3339Nano, RFC1123,
      layoutDateTime, layoutDayMonthYear]"

text \<open>The loop over the layouts: the first layout that parses wins.\<close>

fun tryLayouts :: "(layout \<Rightarrow> string \<Rightarrow> Time option) \<Rightarrow> layout list \<Rightarrow> string \<Rightarrow> Time option" where
  "tryLayouts Parse [] s = None"
| "tryLayouts Parse (l # ls) s =
     (case Parse l s of
        Some t \<Rightarrow> Some t
      | None \<Rightarrow> tryLayouts Parse ls s)"

definition parseDateGuess :: "(layout \<Rightarrow> string \<Rightarrow> Time option) \<Rightarrow> string \<Rightarrow> error + Time" where
  "parseDateGuess Parse s0 =
     (let s1 = TrimSpace s0;
          s2 = TrimPrefix s1 ''<![CDATA['';
          s3 = TrimSuffix s2 '']]>'';
          s = TrimSpace s3
      in case tryLayouts Parse layouts s of
           Some t \<Rightarrow> Inr t
         | None \<Rightarrow>
             (case Parse RFC1123 (s @ '' GMT'') of
                Some t \<Rightarrow> Inr t
              | None \<Rightarrow> Inl DateUnparseable))"

subsection \<open>inspectFeedBody\<close>

text \<open>The body of the loop over the matches: \<open>latest\<close> moves to a date that parses and
  is after it; a match without a group and a date that does not parse are passed over.\<close>

definition latestStep :: "(layout \<Rightarrow> string \<Rightarrow> Time option) \<Rightarrow> Time \<Rightarrow> string list \<Rightarrow> Time" where
  "latestStep Parse latest m =
     (if length m < 2 then latest
      else (case parseDateGuess Parse (TrimSpace (m ! 1)) of
              Inr t \<Rightarrow> if After t latest then t else latest
            | Inl e \<Rightarrow> latest))"

definition inspectFeedBody ::
    "(layout \<Rightarrow> string \<Rightarrow> Time option) \<Rightarrow> string \<Rightarrow> string \<Rightarrow> bool \<times> string \<times> string" where
  "inspectFeedBody Parse body contentType =
     (let lower = ToLower body
      in if Contains contentType ''html'' \<or> Contains lower ''<html''
            \<or> Contains lower ''<!doctype html''
         then (False, [], ''not an rss feed'')
         else if Contains lower ''<rss'' \<or> Contains lower ''<feed''
            \<or> Contains lower ''<rdf:rdf'' \<or> Contains lower ''<item''
            \<or> Contains lower ''<entry''
         then (let matches = FindAllStringSubmatch body;
                   latest = foldl (latestStep Parse) zeroTime matches
               in if \<not> IsZero latest then (True, UTC_Format_RFC3339 latest, ''healthy'')
                  else (True, [], ''healthy''))
         else (False, [], ''broken''))"

subsection \<open>The worker\<close>

record Result =
  ID :: int
  Domain :: string
  FeedURL :: string
  LastItem :: string
  Health :: string

text \<open>\<open>make([]Result, n)\<close> fills the slice with the zero \<open>Result\<close>.\<close>

definition zeroResult :: Result where
  "zeroResult = \<lparr>ID = 0, Domain = [], FeedURL = [], LastItem = [], Health = []\<rparr>"

text \<open>
  \<open>url.Parse\<close> refuses a URL that has an ASCII control byte before its fragment; what it
  makes of every other string is the library's business and is the parameter \<open>host\<close>:
  the \<open>Host\<close> of the parsed URL, or \<open>None\<close> for its error.
\<close>

definition stringContainsCTLByte :: "string \<Rightarrow> bool" where
  "stringContainsCTLByte s = list_ex (\<lambda>c. (of_char c :: nat) < 32 \<or> (of_char c :: nat) = 127) s"

definition url_Parse :: "(string \<Rightarrow> string option) \<Rightarrow> string \<Rightarrow> string option" where
  "url_Parse host rawURL =
     (if stringContainsCTLByte (takeWhile (\<lambda>c. c \<noteq> CHR ''#'') rawURL) then None
      else host rawURL)"

text \<open>
  What \<open>client.Do\<close> hands back: the status, the \<open>Content-Type\<close> header, the length
  the server reports, and the body as the bytes it delivers before it ends, with
  \<open>BodyErr\<close> the error it ends with (\<open>None\<close> for a plain end of file).
\<close>

record Response =
  StatusCode :: int
  ContentType :: string
  ContentLength :: int
  Body :: string
  BodyErr :: "error option"

definition maxRead :: nat where
  "maxRead = 256 * 1024"

text \<open>\<open>io.ReadAll(io.LimitReader(resp.Body, n))\<close>: the limited reader reports the end of
  file after \<open>n\<close> bytes and never reads further.\<close>

definition ReadAllLimited :: "Response \<Rightarrow> nat \<Rightarrow> error + string" where
  "ReadAllLimited resp n =
     (if n \<le> length (Body resp) then Inr (take n (Body resp))
      else (case BodyErr resp of
              None \<Rightarrow> Inr (Body resp)
            | Some e \<Rightarrow> Inl e))"

text \<open>
  The goroutine of \<open>main\<close> for the URL at index \<open>idx\<close>, as the \<open>Result\<close> it stores in
  \<open>results[idx]\<close>. \<open>http.NewRequestWithContext\<close> fails exactly when \<open>url.Parse\<close>
  does (the method is \<open>GET\<close>, the context is not nil); \<open>reply\<close> is what \<open>client.Do\<close>
  returns for the request, an error (time-out, transport) or a response.
\<close>

definition worker ::
    "(layout \<Rightarrow> string \<Rightarrow> Time option) \<Rightarrow> (string \<Rightarrow> string option) \<Rightarrow> (error + Response)
      \<Rightarrow> nat \<Rightarrow> string \<Rightarrow> Result" where
  "worker Parse host reply idx feedURL =
     (let r = \<lparr>ID = int idx + 1,
               Domain = (case url_Parse host feedURL of Some h \<Rightarrow> h | None \<Rightarrow> []),
               FeedURL = feedURL, LastItem = [], Health = []\<rparr>
      in case url_Parse host feedURL of
           None \<Rightarrow> r\<lparr>Health := ''broken''\<rparr>
         | Some h \<Rightarrow>
             (case reply of
                Inl e \<Rightarrow> r\<lparr>Health := ''broken''\<rparr>
              | Inr resp \<Rightarrow>
                  if 400 \<le> StatusCode resp then r\<lparr>Health := ''broken''\<rparr>
                  else (case ReadAllLimited resp maxRead of
                          Inl e \<Rightarrow> r\<lparr>Health := ''broken''\<rparr>
                        | Inr data \<Rightarrow>
                            (let contentType = ToLower (ContentType resp);
                                 (isRSS, last, health) = inspectFeedBody Parse data contentType;
                                 r' = r\<lparr>Health := health\<rparr>
                             in if isRSS then r'\<lparr>LastItem := last\<rparr> else r'))))"

subsection \<open>The pool\<close>

text \<open>
  The loop of \<open>main\<close> and its goroutines as a transition system. A worker is \<open>Idle\<close>
  until the loop has put a token into \<open>sem\<close> for it and started it; it is \<open>Fetching\<close>
  until it stores its result, \<open>Written\<close> until its deferred receive takes a token out
  of \<open>sem\<close>, \<open>Released\<close> until its deferred \<open>wg.Done()\<close>, and \<open>Finished\<close> then.
  \<open>writes\<close> counts the assignments to every slot of \<open>results\<close>.
\<close>

datatype phase = Idle | Fetching | Written | Released | Finished

record pool =
  nextIdx :: nat
  sem :: nat
  wg :: nat
  phases :: "phase list"
  results :: "Result list"
  writes :: "nat list"

datatype event = Launch | Write nat | Release nat | Done nat

definition concurrency :: nat where
  "concurrency = 5"

text \<open>The world a run meets: \<open>url.Parse\<close> on the strings it accepts, and the reply to
  the request of every worker.\<close>

record world =
  hostOf :: "string \<Rightarrow> string option"
  replyTo :: "nat \<Rightarrow> error + Response"

definition initPool :: "string list \<Rightarrow> pool" where
  "initPool urls =
     \<lparr>nextIdx = 0, sem = 0, wg = 0,
      phases = replicate (length urls) Idle,
      results = replicate (length urls) zeroResult,
      writes = replicate (length urls) 0\<rparr>"

text \<open>
  One step; \<open>None\<close> when the event cannot take place. \<open>Launch\<close> is a round of the
  loop: \<open>wg.Add(1)\<close>, the send to \<open>sem\<close>, which waits while \<open>sem\<close> holds
  \<open>concurrency\<close> tokens, and the \<open>go\<close> statement.
\<close>

definition step ::
    "(layout \<Rightarrow> string \<Rightarrow> Time option) \<Rightarrow> world \<Rightarrow> string list \<Rightarrow> pool \<Rightarrow> event \<Rightarrow> pool option" where
  "step Parse w urls p ev =
     (case ev of
        Launch \<Rightarrow>
          if nextIdx p < length urls \<and> sem p < concurrency then
            Some (p\<lparr>nextIdx := nextIdx p + 1, sem := sem p + 1, wg := wg p + 1,
                    phases := (phases p)[nextIdx p := Fetching]\<rparr>)
          else None
      | Write i \<Rightarrow>
          if i < length urls \<and> phases p ! i = Fetching then
            Some (p\<lparr>phases := (phases p)[i := Written],
                    results := (results p)[i := worker Parse (hostOf w) (replyTo w i) i (urls ! i)],
                    writes := (writes p)[i := writes p ! i + 1]\<rparr>)
          else None
      | Release i \<Rightarrow>
          if i < length urls \<and> phases p ! i = Written \<and> 0 < sem p then
            Some (p\<lparr>sem := sem p - 1, phases := (phases p)[i := Released]\<rparr>)
          else None
      | Done i \<Rightarrow>
          if i < length urls \<and> phases p ! i = Released \<and> 0 < wg p then
            Some (p\<lparr>wg := wg p - 1, phases := (phases p)[i := Finished]\<rparr>)
          else None)"

fun run ::
    "(layout \<Rightarrow> string \<Rightarrow> Time option) \<Rightarrow> world \<Rightarrow> string list \<Rightarrow> pool \<Rightarrow> event list \<Rightarrow> pool option" where
  "run Parse w urls p [] = Some p"
| "run Parse w urls p (ev # evs) =
     (case step Parse w urls p ev of
        None \<Rightarrow> None
      | Some p' \<Rightarrow> run Parse w urls p' evs)"

text \<open>\<open>wg.Wait()\<close> returns: the loop is through and the counter is back at zero.\<close>

definition drained :: "string list \<Rightarrow> pool \<Rightarrow> bool" where
  "drained urls p = (nextIdx p = length urls \<and> wg p = 0)"

text \<open>The workers that hold a token of \<open>sem\<close>, and those that fetch.\<close>

definition holding :: "pool \<Rightarrow> nat" where
  "holding p = length (filter (\<lambda>ph. ph = Fetching \<or> ph = Written) (phases p))"

definition fetching :: "pool \<Rightarrow> nat" where
  "fetching p = length (filter (\<lambda>ph. ph = Fetching) (phases p))"

subsection \<open>The ranking\<close>

definition rank :: "string \<rightharpoonup> int" where
  "rank = [''healthy'' \<mapsto> 0, ''not an rss feed'' \<mapsto> 1, ''broken'' \<mapsto> 2]"

text \<open>\<open>rank[k]\<close>: the zero value for a key that is not in the map.\<close>

definition rankAt :: "string \<Rightarrow> int" where
  "rankAt k = (case rank k of Some v \<Rightarrow> v | None \<Rightarrow> 0)"

definition getRank :: "string \<Rightarrow> int" where
  "getRank h =
     (if h = [] then rankAt ''broken''
      else (case rank h of
              Some v \<Rightarrow> v
            | None \<Rightarrow> rankAt ''broken''))"

text \<open>The \<open>less\<close> function handed to \<open>sort.SliceStable\<close>; \<open><\<close> on strings compares
  byte by byte.\<close>

definition resultLess :: "Result \<Rightarrow> Result \<Rightarrow> bool" where
  "resultLess a b =
     (let ri = getRank (Health a); rj = getRank (Health b)
      in if ri \<noteq> rj then ri < rj
         else if Domain a \<noteq> Domain b then Domain a < Domain b
         else FeedURL a < FeedURL b)"

text \<open>\<open>sort.SliceStable\<close>: an element goes behind the elements that are less than it
  and before all others, so elements that \<open>lt\<close> does not tell apart keep their order.\<close>

fun insertStable :: "('a \<Rightarrow> 'a \<Rightarrow> bool) \<Rightarrow> 'a \<Rightarrow> 'a list \<Rightarrow> 'a list" where
  "insertStable lt x [] = [x]"
| "insertStable lt x (y # ys) =
     (if lt y x then y # insertStable lt x ys else x # y # ys)"

definition SliceStable :: "('a \<Rightarrow> 'a \<Rightarrow> bool) \<Rightarrow> 'a list \<Rightarrow> 'a list" where
  "SliceStable lt xs = foldr (insertStable lt) xs []"

definition ranked :: "Result list \<Rightarrow> Result list" where
  "ranked rs = SliceStable resultLess rs"

subsection \<open>The vocabulary of the specification\<close>

text \<open>The HTML rule of the classifier, on the content type the server declares and the
  body: one of the markers occurs, in any case of its letters.\<close>

definition htmlRule :: "string \<Rightarrow> string \<Rightarrow> bool" where
  "htmlRule contentType body =
     (containsFold contentType ''html'' \<or> containsFold body ''<html''
      \<or> containsFold body ''<!doctype html'')"

definition feedMarkers :: "string list" where
  "feedMarkers = [''<rss'', ''<feed'', ''<rdf:rdf'', ''<item'', ''<entry'']"

definition feedLike :: "string \<Rightarrow> bool" where
  "feedLike body = list_ex (containsFold body) feedMarkers"

text \<open>The strings between the date tags of a body, and the instants of those that the
  date parser accepts, in the order of the body.\<close>

definition dateStrings :: "string \<Rightarrow> string list" where
  "dateStrings body = map (\<lambda>m. m ! 1) (FindAllStringSubmatch body)"

definition parsedDates :: "(layout \<Rightarrow> string \<Rightarrow> Time option) \<Rightarrow> string \<Rightarrow> Time list" where
  "parsedDates Parse body =
     List.map_filter
       (\<lambda>g. case parseDateGuess Parse g of Inr t \<Rightarrow> Some t | Inl e \<Rightarrow> None)
       (dateStrings body)"


text \<open>The later of two instants, the step of the maximum.\<close>

definition laterOf :: "Time \<Rightarrow> Time \<Rightarrow> Time" where
  "laterOf l t = (if After t l then t else l)"





text \<open>The three keys of the ranking, compared from left to right.\<close>

definition rankKey :: "Result \<Rightarrow> int \<times> string \<times> string" where
  "rankKey r = (getRank (Health r), Domain r, FeedURL r)"

text \<open>A list is in ranking order when no element is less than one before it.\<close>

definition inOrder :: "Result list \<Rightarrow> bool" where
  "inOrder rs = sorted_wrt (\<lambda>x y. \<not> resultLess y x) rs"

text \<open>Results of a run, in the order of the input and in the order of the ranking; two
  of them differ in their \<open>ID\<close> only, one has no health.\<close>

definition sampleResults :: "Result list" where
  "sampleResults =
     [\<lparr>ID = 1, Domain = ''c.example'', FeedURL = ''http://c.example/missing'', LastItem = [], Health = ''broken''\<rparr>,
      \<lparr>ID = 2, Domain = ''b.example'', FeedURL = ''http://b.example/'', LastItem = [], Health = ''not an rss feed''\<rparr>,
      \<lparr>ID = 3, Domain = ''a.example'', FeedURL = ''http://a.example/z'', LastItem = [], Health = ''healthy''\<rparr>,
      \<lparr>ID = 4, Domain = ''B.example'', FeedURL = ''http://B.example/feed'', LastItem = [], Health = ''healthy''\<rparr>,
      \<lparr>ID = 5, Domain = ''a.example'', FeedURL = ''http://a.example/feed.xml'', LastItem = [], Health = ''healthy''\<rparr>,
      \<lparr>ID = 6, Domain = ''a.example'', FeedURL = ''http://a.example/feed.xml'', LastItem = [], Health = ''healthy''\<rparr>,
      \<lparr>ID = 7, Domain = ''a.example'', FeedURL = ''http://a.example/0'', LastItem = [], Health = []\<rparr>]"

definition sampleRanked :: "Result list" where
  "sampleRanked =
     [\<lparr>ID = 4, Domain = ''B.example'', FeedURL = ''http://B.example/feed'', LastItem = [], Health = ''healthy''\<rparr>,
      \<lparr>ID = 5, Domain = ''a.example'', FeedURL = ''http://a.example/feed.xml'', LastItem = [], Health = ''healthy''\<rparr>,
      \<lparr>ID = 6, Domain = ''a.example'', FeedURL = ''http://a.example/feed.xml'', LastItem = [], Health = ''healthy''\<rparr>,
      \<lparr>ID = 3, Domain = ''a.example'', FeedURL = ''http://a.example/z'', LastItem = [], Health = ''healthy''\<rparr>,
      \<lparr>ID = 2, Domain = ''b.example'', FeedURL = ''http://b.example/'', LastItem = [], Health = ''not an rss feed''\<rparr>,
      \<lparr>ID = 7, Domain = ''a.example'', FeedURL = ''http://a.example/0'', LastItem = [], Health = []\<rparr>,
      \<lparr>ID = 1, Domain = ''c.example'', FeedURL = ''http://c.example/missing'', LastItem = [], Health = ''broken''\<rparr>]"

text \<open>
  A fetch fails: the URL does not parse, \<open>client.Do\<close> returns an error (a time-out, a
  transport error), the status is 400 or more, or the body ends with an error before
  \<open>maxRead\<close> bytes.
\<close>

definition fetchFailure :: "(string \<Rightarrow> string option) \<Rightarrow> (error + Response) \<Rightarrow> string \<Rightarrow> bool" where
  "fetchFailure host reply feedURL =
     (url_Parse host feedURL = None
      \<or> (case reply of
            Inl e \<Rightarrow> True
          | Inr resp \<Rightarrow>
              400 \<le> StatusCode resp
              \<or> (length (Body resp) < maxRead \<and> BodyErr resp \<noteq> None)))"

text \<open>The result that the worker of index \<open>i\<close> computes in the world \<open>w\<close>.\<close>

definition jobOf ::
    "(layout \<Rightarrow> string \<Rightarrow> Time option) \<Rightarrow> world \<Rightarrow> string list \<Rightarrow> nat \<Rightarrow> Result" where
  "jobOf Parse w urls i = worker Parse (hostOf w) (replyTo w i) i (urls ! i)"

text \<open>The steps a worker has behind it, and the steps of all workers.\<close>

fun phaseRank :: "phase \<Rightarrow> nat" where
  "phaseRank Idle = 0"
| "phaseRank Fetching = 1"
| "phaseRank Written = 2"
| "phaseRank Released = 3"
| "phaseRank Finished = 4"

definition progress :: "pool \<Rightarrow> nat" where
  "progress p = sum_list (map phaseRank (phases p))"

text \<open>
  What holds of the pool at every moment: \<open>sem\<close> holds one token for every worker that
  fetches or has written and not released, \<open>wg\<close> counts the workers that are started
  and not done, the idle workers are those the loop has not reached, and a slot of
  \<open>results\<close> is untouched before its worker has written and holds the worker's result,
  written once, from then on.
\<close>

definition poolInv :: "(nat \<Rightarrow> Result) \<Rightarrow> nat \<Rightarrow> pool \<Rightarrow> bool" where
  "poolInv job n p =
     (length (phases p) = n \<and> length (results p) = n \<and> length (writes p) = n
      \<and> nextIdx p \<le> n
      \<and> sem p = holding p \<and> sem p \<le> concurrency
      \<and> wg p = length (filter (\<lambda>ph. ph = Fetching \<or> ph = Written \<or> ph = Released) (phases p))
      \<and> (\<forall>i < n. (phases p ! i = Idle) = (nextIdx p \<le> i))
      \<and> (\<forall>i < n.
            if phases p ! i = Idle \<or> phases p ! i = Fetching
            then writes p ! i = 0 \<and> results p ! i = zeroResult
            else writes p ! i = 1 \<and> results p ! i = job i))"

text \<open>
  Worlds for the examples. \<open>sampleHost\<close> reads the host of an \<open>http://\<close> URL. In
  \<open>sampleWorld\<close> the first URL is a feed, the second an HTML page and the third is
  missing; in \<open>failingWorld\<close> every request ends in a time-out.
\<close>

definition sampleHost :: "string \<Rightarrow> string option" where
  "sampleHost u =
     (if HasPrefix u ''http://'' then Some (takeWhile (\<lambda>c. c \<noteq> CHR ''/'') (drop 7 u))
      else None)"

definition sampleURLs :: "string list" where
  "sampleURLs = [''http://a.example/feed.xml'', ''http://b.example/'', ''http://c.example/missing'']"

definition sampleWorld :: world where
  "sampleWorld =
     \<lparr>hostOf = sampleHost,
      replyTo = (\<lambda>i.
        if i = 0 then
          Inr \<lparr>StatusCode = 200, ContentType = ''application/rss+xml'', ContentLength = 75,
               Body = ''<rss><item><pubDate>Mon, 02 Jan 2006 15:04:05 GMT</pubDate></item></rss>'',
               BodyErr = None\<rparr>
        else if i = 1 then
          Inr \<lparr>StatusCode = 200, ContentType = ''text/html'', ContentLength = 28,
               Body = ''<!DOCTYPE html><html></html>'', BodyErr = None\<rparr>
        else
          Inr \<lparr>StatusCode = 404, ContentType = ''text/plain'', ContentLength = 9,
               Body = ''not found'', BodyErr = None\<rparr>)\<rparr>"

definition failingWorld :: world where
  "failingWorld = \<lparr>hostOf = sampleHost, replyTo = (\<lambda>i. Inl Timeout)\<rparr>"

text \<open>A response of 300000 bytes whose server claims five bytes and whose body breaks
  off with an error.\<close>

definition bigResponse :: Response where
  "bigResponse =
     \<lparr>StatusCode = 200, ContentType = ''text/xml'', ContentLength = 5,
      Body = replicate 300000 (CHR ''a''), BodyErr = Some ReadError\<rparr>"

text \<open>A run of the three workers of \<open>sampleWorld\<close> to the end, and the pool it ends in.\<close>

definition sampleSchedule :: "event list" where
  "sampleSchedule =
     [Launch, Launch, Launch, Write 1, Write 0, Release 1, Write 2, Done 1,
      Release 0, Release 2, Done 2, Done 0]"

definition samplePool :: pool where
  "samplePool =
     \<lparr>nextIdx = 3, sem = 0, wg = 0,
      phases = [Finished, Finished, Finished],
      results =
        [\<lparr>ID = 1, Domain = ''a.example'', FeedURL = ''http://a.example/feed.xml'',
          LastItem = ''2006-01-02T15:04:05Z'', Health = ''healthy''\<rparr>,
         \<lparr>ID = 2, Domain = ''b.example'', FeedURL = ''http://b.example/'',
          LastItem = [], Health = ''not an rss feed''\<rparr>,
         \<lparr>ID = 3, Domain = ''c.example'', FeedURL = ''http://c.example/missing'',
          LastItem = [], Health = ''broken''\<rparr>],
      writes = [1, 1, 1]\<rparr>"

text \<open>Six URLs whose requests time out, and the pool after five rounds of the loop.\<close>

definition busyURLs :: "string list" where
  "busyURLs = replicate 6 ''http://a.example/''"

definition busyPool :: pool where
  "busyPool =
     \<lparr>nextIdx = 5, sem = 5, wg = 5,
      phases = [Fetching, Fetching, Fetching, Fetching, Fetching, Idle],
      results = replicate 6 zeroResult,
      writes = replicate 6 0\<rparr>"

text \<open>The malformed URL of the specification and a URL whose request times out, a run
  of their two workers, and the pool it ends in.\<close>

definition failURLs :: "string list" where
  "failURLs = [''not a url '' @ [CHR 0x00], ''http://t.example/feed'']"

definition failSchedule :: "event list" where
  "failSchedule = [Launch, Launch, Write 0, Write 1, Release 0, Release 1, Done 0, Done 1]"

definition failPool :: pool where
  "failPool =
     \<lparr>nextIdx = 2, sem = 0, wg = 0,
      phases = [Finished, Finished],
      results =
        [\<lparr>ID = 1, Domain = [], FeedURL = ''not a url '' @ [CHR 0x00],
          LastItem = [], Health = ''broken''\<rparr>,
         \<lparr>ID = 2, Domain = ''t.example'', FeedURL = ''http://t.example/feed'',
          LastItem = [], Health = ''broken''\<rparr>],
      writes = [1, 1]\<rparr>"

section \<open>Properties\<close>

subsection \<open>Searching in strings\<close>

lemma Contains_iff:
  "Contains s sub \<longleftrightarrow>
     (\<exists>i. i + length sub \<le> length s \<and> take (length sub) (drop i s) = sub)"
proof (induction s)
  case Nil
  then show ?case by auto
next
  case (Cons c cs)
  show ?case
  proof
    assume "Contains (c # cs) sub"
    then consider "HasPrefix (c # cs) sub" | "Contains cs sub" by auto
    then show "\<exists>i. i + length sub \<le> length (c # cs) \<and> take (length sub) (drop i (c # cs)) = sub"
    proof cases
      case 1
      then show ?thesis unfolding HasPrefix_def by (intro exI[of _ 0]) simp
    next
      case 2
      with Cons.IH obtain i where "i + length sub \<le> length cs" "take (length sub) (drop i cs) = sub"
        by blast
      then show ?thesis by (intro exI[of _ "Suc i"]) simp
    qed
  next
    assume "\<exists>i. i + length sub \<le> length (c # cs) \<and> take (length sub) (drop i (c # cs)) = sub"
    then obtain i where i: "i + length sub \<le> length (c # cs)"
        "take (length sub) (drop i (c # cs)) = sub"
      by blast
    show "Contains (c # cs) sub"
    proof (cases i)
      case 0
      with i show ?thesis by (simp add: HasPrefix_def)
    next
      case (Suc j)
      with i have "j + length sub \<le> length cs" "take (length sub) (drop j cs) = sub"
        by simp_all
      with Cons.IH show ?thesis by auto
    qed
  qed
qed

text \<open>Searching the lower-cased string for a lower-case marker is the search for the
  marker in any case.\<close>

lemma containsFold_iff: "containsFold s m \<longleftrightarrow> Contains (ToLower s) (ToLower m)"
  unfolding containsFold_def Contains_iff EqualFold_def ToLower_def
  by (auto simp: take_map drop_map)

lemma lower_markers:
  "ToLower ''html'' = ''html''" "ToLower ''<html'' = ''<html''"
  "ToLower ''<!doctype html'' = ''<!doctype html''"
  "ToLower ''<rss'' = ''<rss''" "ToLower ''<feed'' = ''<feed''"
  "ToLower ''<rdf:rdf'' = ''<rdf:rdf''" "ToLower ''<item'' = ''<item''"
  "ToLower ''<entry'' = ''<entry''"
  by (simp_all add: ToLower_def lowerByte_def isUpper_def)

lemma htmlRule_iff:
  "htmlRule ct body \<longleftrightarrow>
     Contains (ToLower ct) ''html'' \<or> Contains (ToLower body) ''<html''
     \<or> Contains (ToLower body) ''<!doctype html''"
  by (simp add: htmlRule_def containsFold_iff lower_markers)

lemma feedLike_iff:
  "feedLike body \<longleftrightarrow>
     Contains (ToLower body) ''<rss'' \<or> Contains (ToLower body) ''<feed''
     \<or> Contains (ToLower body) ''<rdf:rdf'' \<or> Contains (ToLower body) ''<item''
     \<or> Contains (ToLower body) ''<entry''"
  by (simp add: feedLike_def feedMarkers_def containsFold_iff lower_markers)

subsection \<open>The HTML rule comes first\<close>

text \<open>
  Claim C1. For every body and every content type that the server declares: if the
  content type contains \<open>html\<close>, or the body contains \<open><html\<close> or
  \<open><!doctype html\<close>, each in any case of its letters, the classifier answers
  \<open>not an rss feed\<close> with no timestamp, whatever else the body holds. The worker
  hands \<open>inspectFeedBody\<close> the declared content type in lower case
  (\<open>strings.ToLower(resp.Header.Get("Content-Type"))\<close>), and that call is what the
  theorem is about; it holds for every \<open>time.Parse\<close>.
\<close>

theorem html_is_not_a_feed:
  "htmlRule contentType body \<Longrightarrow>
     inspectFeedBody Parse body (ToLower contentType) = (False, [], ''not an rss feed'')"
  by (simp add: htmlRule_iff inspectFeedBody_def Let_def)

text \<open>A feed served as \<open>Text/HTML\<close>, and an HTML page that has \<open><rss>\<close> in it.\<close>

theorem html_is_not_a_feed_witness:
  "htmlRule ''Text/HTML; charset=utf-8'' ''<rss version=\"2.0\">''
   \<and> inspectFeedBody time_Parse ''<rss version=\"2.0\">'' (ToLower ''Text/HTML; charset=utf-8'')
       = (False, [], ''not an rss feed'')
   \<and> htmlRule ''text/xml'' ''<HTML><a href=x.rss><rss>''
   \<and> inspectFeedBody time_Parse ''<HTML><a href=x.rss><rss>'' (ToLower ''text/xml'')
       = (False, [], ''not an rss feed'')"
proof -
  have a: "htmlRule ''Text/HTML; charset=utf-8'' ''<rss version=\"2.0\">''"
    unfolding htmlRule_iff by code_simp
  have b: "htmlRule ''text/xml'' ''<HTML><a href=x.rss><rss>''"
    unfolding htmlRule_iff by code_simp
  show ?thesis
    using a b html_is_not_a_feed [OF a, of time_Parse] html_is_not_a_feed [OF b, of time_Parse]
    by simp
qed

subsection \<open>White space, matches and the latest date\<close>

lemma TrimSpace_idem: "TrimSpace (TrimSpace s) = TrimSpace s"
proof -
  define a where "a = dropWhile isSpace s"
  define b where "b = dropWhile isSpace (rev a)"
  have ts: "TrimSpace s = rev b" by (simp add: TrimSpace_def a_def b_def)
  have head: "dropWhile isSpace (rev b) = rev b"
  proof (cases "b = []")
    case True
    then show ?thesis by simp
  next
    case False
    have split: "rev a = takeWhile isSpace (rev a) @ b" by (simp add: b_def)
    from False split have "a \<noteq> []" by auto
    have "last b = last (rev a)" using False split by (metis last_appendR)
    also have "\<dots> = hd a" using \<open>a \<noteq> []\<close> by (simp add: last_rev)
    finally have "hd (rev b) = hd a" using False by (simp add: hd_rev)
    moreover have "\<not> isSpace (hd a)" using \<open>a \<noteq> []\<close> unfolding a_def by (rule hd_dropWhile)
    ultimately show ?thesis by (simp add: dropWhile_eq_self_iff)
  qed
  have "dropWhile isSpace b = b" by (simp add: b_def)
  with head have "TrimSpace (rev b) = rev b" by (simp add: TrimSpace_def)
  then show ?thesis by (simp only: ts)
qed


lemma parseDateGuess_TrimSpace: "parseDateGuess Parse (TrimSpace g) = parseDateGuess Parse g"
  by (simp add: parseDateGuess_def TrimSpace_idem)

lemma match_length: "m \<in> set (FindAllStringSubmatch s) \<Longrightarrow> length m = 2"
  by (induction s arbitrary: m rule: FindAllStringSubmatch.induct) (auto split: option.splits)





lemma IsZero_iff: "IsZero t \<longleftrightarrow> t = zeroTime"
  by (cases t) (auto simp: IsZero_def zeroTime_def)

lemma latestStep_pair:
  "length m = 2 \<Longrightarrow>
     latestStep Parse l m =
       (case parseDateGuess Parse (m ! 1) of Inr t \<Rightarrow> laterOf l t | Inl e \<Rightarrow> l)"
  by (simp add: latestStep_def parseDateGuess_TrimSpace laterOf_def split: sum.splits)

lemma foldl_latestStep:
  "\<forall>m \<in> set ms. length m = 2 \<Longrightarrow>
     foldl (latestStep Parse) l ms =
       foldl laterOf l
         (List.map_filter (\<lambda>g. case parseDateGuess Parse g of Inr t \<Rightarrow> Some t | Inl e \<Rightarrow> None)
            (map (\<lambda>m. m ! 1) ms))"
proof (induction ms arbitrary: l)
  case Nil
  then show ?case by (simp add: map_filter_simps)
next
  case (Cons m ms)
  then have len: "length m = 2" and rest: "\<forall>m \<in> set ms. length m = 2" by simp_all
  show ?case
    using Cons.IH [OF rest] latestStep_pair [OF len, of Parse l]
    by (cases "parseDateGuess Parse (m ! 1)") (simp_all add: map_filter_simps)
qed


lemma inspect_cases:
  "inspectFeedBody Parse body ct =
     (if Contains ct ''html'' \<or> containsFold body ''<html''
         \<or> containsFold body ''<!doctype html''
      then (False, [], ''not an rss feed'')
      else if feedLike body then
        (let latest = foldl laterOf zeroTime (parsedDates Parse body)
         in if latest \<noteq> zeroTime then (True, UTC_Format_RFC3339 latest, ''healthy'')
            else (True, [], ''healthy''))
      else (False, [], ''broken''))"
proof -
  have "\<forall>m \<in> set (FindAllStringSubmatch body). length m = 2"
    using match_length by blast
  then have "foldl (latestStep Parse) zeroTime (FindAllStringSubmatch body)
      = foldl laterOf zeroTime (parsedDates Parse body)"
    by (simp add: foldl_latestStep parsedDates_def dateStrings_def)
  then show ?thesis
    by (simp add: inspectFeedBody_def Let_def feedLike_iff containsFold_iff lower_markers IsZero_iff)
qed









subsection \<open>Feed markers\<close>



subsection \<open>The latest date\<close>




subsection \<open>The date parser\<close>





subsection \<open>The zero time is no date\<close>



subsection \<open>The ranking\<close>

text \<open>The stable insertion with \<open>resultLess\<close> is the stable sort by \<open>rankKey\<close>.\<close>

lemma getRank_values:
  "getRank ''healthy'' = 0" "getRank ''not an rss feed'' = 1" "getRank ''broken'' = 2"
  by (simp_all add: getRank_def rank_def rankAt_def)

lemma getRank_other: "h \<noteq> ''healthy'' \<Longrightarrow> h \<noteq> ''not an rss feed'' \<Longrightarrow> getRank h = 2"
  by (simp add: getRank_def rank_def rankAt_def)

lemma resultLess_key: "resultLess a b \<longleftrightarrow> rankKey a < rankKey b"
  by (auto simp: resultLess_def rankKey_def Let_def less_prod_def less_le)

lemma insertStable_insort: "insertStable resultLess x ys = insort_key rankKey x ys"
  by (induction ys) (auto simp: resultLess_key)

lemma ranked_sort: "ranked rs = sort_key rankKey rs"
proof -
  have "foldr (insertStable resultLess) rs ys = foldr (insort_key rankKey) rs ys" for ys
    by (induction rs) (simp_all add: insertStable_insort)
  then show ?thesis by (simp add: ranked_def SliceStable_def sort_key_def)
qed

lemma inOrder_sorted: "inOrder rs \<longleftrightarrow> sorted (map rankKey rs)"
  by (simp add: inOrder_def sorted_map resultLess_key not_less)

text \<open>
  Claim C3. The ranking of the results is a stable, deterministic total order. The first
  key is the tier of the health, \<open>healthy\<close> before \<open>not an rss feed\<close> before
  \<open>broken\<close>, with the empty and every other health in the tier of \<open>broken\<close>; the
  second key is the domain and the third the feed URL, both compared byte by byte.
  \<open>resultLess\<close> is irreflexive and transitive, and two results that it does not order
  have the same three keys. The ranked list is in order and holds the same results;
  results with the same keys keep the order they had; and ranking a list that is in
  order, so also a ranked list, changes nothing.
\<close>

theorem ranking_is_stable_order:
  "getRank ''healthy'' = 0 \<and> getRank ''not an rss feed'' = 1 \<and> getRank ''broken'' = 2
   \<and> (h \<noteq> ''healthy'' \<and> h \<noteq> ''not an rss feed'' \<longrightarrow> getRank h = 2)
   \<and> (resultLess a b \<longleftrightarrow>
        getRank (Health a) < getRank (Health b)
        \<or> (getRank (Health a) = getRank (Health b)
            \<and> (Domain a < Domain b \<or> (Domain a = Domain b \<and> FeedURL a < FeedURL b))))
   \<and> \<not> resultLess a a
   \<and> (resultLess a b \<and> resultLess b c \<longrightarrow> resultLess a c)
   \<and> (resultLess a b \<or> resultLess b a \<or> rankKey a = rankKey b)
   \<and> inOrder (ranked rs)
   \<and> mset (ranked rs) = mset rs
   \<and> filter (\<lambda>r. rankKey r = k) (ranked rs) = filter (\<lambda>r. rankKey r = k) rs
   \<and> (inOrder rs \<longrightarrow> ranked rs = rs)
   \<and> ranked (ranked rs) = ranked rs"
proof (intro conjI impI)
  show "resultLess a b \<longleftrightarrow>
        getRank (Health a) < getRank (Health b)
        \<or> (getRank (Health a) = getRank (Health b)
            \<and> (Domain a < Domain b \<or> (Domain a = Domain b \<and> FeedURL a < FeedURL b)))"
    by (auto simp: resultLess_def Let_def)
  show "resultLess a b \<or> resultLess b a \<or> rankKey a = rankKey b"
    by (auto simp: resultLess_key)
  show "inOrder (ranked rs)"
    by (simp add: inOrder_sorted ranked_sort)
  show "mset (ranked rs) = mset rs"
    by (simp add: ranked_sort)
  show "filter (\<lambda>r. rankKey r = k) (ranked rs) = filter (\<lambda>r. rankKey r = k) rs"
    by (simp add: ranked_sort sort_key_stable)
  show "ranked (ranked rs) = ranked rs"
    by (simp add: ranked_sort sort_key_id_if_sorted)
next
  assume "inOrder rs"
  then show "ranked rs = rs"
    by (simp add: ranked_sort inOrder_sorted sort_key_id_if_sorted)
next
  assume "resultLess a b \<and> resultLess b c"
  then show "resultLess a c" by (auto simp: resultLess_key)
next
  assume "h \<noteq> ''healthy'' \<and> h \<noteq> ''not an rss feed''"
  then show "getRank h = 2" by (simp add: getRank_other)
qed (simp_all add: getRank_values resultLess_key)

text \<open>Seven results: upper case sorts before lower case, the two results with equal
  keys stay as they were, the result without a health goes with the broken ones.\<close>

theorem ranking_is_stable_order_witness:
  "ranked sampleResults = sampleRanked
   \<and> inOrder sampleRanked
   \<and> ranked sampleRanked = sampleRanked
   \<and> mset sampleRanked = mset sampleResults
   \<and> getRank ''paused'' = 2 \<and> getRank [] = 2
   \<and> resultLess (sampleResults ! 3) (sampleResults ! 2)
   \<and> resultLess (sampleResults ! 2) (sampleResults ! 1)
   \<and> resultLess (sampleResults ! 3) (sampleResults ! 1)"
proof -
  have e: "ranked sampleResults = sampleRanked"
    by code_simp
  have o: "inOrder sampleRanked"
    by code_simp
  have l: "resultLess (sampleResults ! 3) (sampleResults ! 2)"
      "resultLess (sampleResults ! 2) (sampleResults ! 1)"
    by code_simp+
  have p: "''paused'' \<noteq> ''healthy'' \<and> ''paused'' \<noteq> ''not an rss feed''"
      "[] \<noteq> ''healthy'' \<and> [] \<noteq> ''not an rss feed''"
    by simp_all
  note t1 = ranking_is_stable_order [of "''paused''" "sampleResults ! 3" "sampleResults ! 2"
      "sampleResults ! 1" sampleRanked "rankKey (sampleResults ! 0)"]
  note t2 = ranking_is_stable_order [of "[]" "sampleResults ! 3" "sampleResults ! 2"
      "sampleResults ! 1" sampleResults "rankKey (sampleResults ! 0)"]
  from t1 o have 1: "ranked sampleRanked = sampleRanked" by blast
  from t1 p(1) have 2: "getRank ''paused'' = 2" by blast
  from t2 p(2) have 3: "getRank [] = 2" by blast
  from t1 l have 4: "resultLess (sampleResults ! 3) (sampleResults ! 1)" by blast
  from t2 e have 5: "mset sampleRanked = mset sampleResults" by metis
  from e o 1 2 3 4 5 l show ?thesis by (intro conjI)
qed

subsection \<open>The worker and the pool\<close>

lemma inspect_health:
  "snd (snd (inspectFeedBody Parse body ct)) \<in> {''healthy'', ''not an rss feed'', ''broken''}"
  by (simp add: inspect_cases Let_def)

lemma worker_fields:
  "ID (worker Parse host reply idx u) = int idx + 1
   \<and> FeedURL (worker Parse host reply idx u) = u
   \<and> Health (worker Parse host reply idx u) \<in> {''healthy'', ''not an rss feed'', ''broken''}"
proof -
  have h: "health \<in> {''healthy'', ''not an rss feed'', ''broken''}"
    if "inspectFeedBody Parse data ct = (isRSS, lastItem, health)" for data ct isRSS lastItem health
    using inspect_health [of Parse data ct] that by simp
  show ?thesis
    unfolding worker_def Let_def
    by (auto split: option.splits sum.splits prod.splits dest!: h)
qed

lemma worker_failure:
  "fetchFailure host reply u \<Longrightarrow>
     worker Parse host reply idx u =
       \<lparr>ID = int idx + 1, Domain = (case url_Parse host u of Some h \<Rightarrow> h | None \<Rightarrow> []),
        FeedURL = u, LastItem = [], Health = ''broken''\<rparr>"
  unfolding fetchFailure_def worker_def Let_def ReadAllLimited_def
  by (auto split: option.splits sum.splits)

lemma malformed_url: "url_Parse host (''not a url '' @ [CHR 0x00]) = None"
  by (simp add: url_Parse_def stringContainsCTLByte_def)

text \<open>Every step keeps \<open>poolInv\<close> and is one step of progress.\<close>

lemma count_update:
  "i < length xs \<Longrightarrow>
     length (filter P (xs[i := v])) + (if P (xs ! i) then 1 else 0)
       = length (filter P xs) + (if P v then 1 else 0)"
proof (induction xs arbitrary: i)
  case Nil
  then show ?case by simp
next
  case (Cons x xs)
  then show ?case by (cases i) auto
qed

lemma sum_update:
  "i < length xs \<Longrightarrow>
     sum_list (map f (xs[i := v])) + f (xs ! i) = sum_list (map f xs) + (f v :: nat)"
proof (induction xs arbitrary: i)
  case Nil
  then show ?case by simp
next
  case (Cons x xs)
  then show ?case by (cases i) auto
qed

lemma initPool_inv: "poolInv job (length urls) (initPool urls)"
  by (simp add: poolInv_def initPool_def holding_def)

lemma poolInvI:
  assumes "length (phases p) = n" "length (results p) = n" "length (writes p) = n"
    and "nextIdx p \<le> n"
    and "sem p = length (filter (\<lambda>ph. ph = Fetching \<or> ph = Written) (phases p))"
    and "sem p \<le> concurrency"
    and "wg p = length (filter (\<lambda>ph. ph = Fetching \<or> ph = Written \<or> ph = Released) (phases p))"
    and "\<forall>i < n. (phases p ! i = Idle) = (nextIdx p \<le> i)"
    and "\<forall>i < n. if phases p ! i = Idle \<or> phases p ! i = Fetching
            then writes p ! i = 0 \<and> results p ! i = zeroResult
            else writes p ! i = 1 \<and> results p ! i = job i"
  shows "poolInv job n p"
  unfolding poolInv_def holding_def using assms by blast

lemma step_inv:
  assumes inv: "poolInv (jobOf Parse w urls) (length urls) p"
    and st: "step Parse w urls p ev = Some p'"
  shows "poolInv (jobOf Parse w urls) (length urls) p' \<and> progress p' = Suc (progress p)"
proof -
  let ?n = "length urls"
  let ?H = "\<lambda>ph. ph = Fetching \<or> ph = Written"
  let ?W = "\<lambda>ph. ph = Fetching \<or> ph = Written \<or> ph = Released"
  from inv have len: "length (phases p) = ?n" "length (results p) = ?n" "length (writes p) = ?n"
    and nx: "nextIdx p \<le> ?n"
    and sm: "sem p = length (filter ?H (phases p))" "sem p \<le> concurrency"
    and wgc: "wg p = length (filter ?W (phases p))"
    and idle: "\<forall>i < ?n. (phases p ! i = Idle) = (nextIdx p \<le> i)"
    and res: "\<forall>i < ?n. if phases p ! i = Idle \<or> phases p ! i = Fetching
            then writes p ! i = 0 \<and> results p ! i = zeroResult
            else writes p ! i = 1 \<and> results p ! i = jobOf Parse w urls i"
    by (simp_all add: poolInv_def holding_def)
  have upd: "i < ?n \<Longrightarrow>
      length (filter P ((phases p)[i := v])) + (if P (phases p ! i) then 1 else 0)
        = length (filter P (phases p)) + (if P v then 1 else 0)" for i v P
    using count_update [of i "phases p" P v] len by simp
  have pr: "i < ?n \<Longrightarrow>
      sum_list (map phaseRank ((phases p)[i := v])) + phaseRank (phases p ! i)
        = sum_list (map phaseRank (phases p)) + phaseRank v" for i v
    using sum_update [of i "phases p" phaseRank v] len by simp
  have other: "\<forall>j < ?n. if phases p' ! j = Idle \<or> phases p' ! j = Fetching
            then writes p' ! j = 0 \<and> results p' ! j = zeroResult
            else writes p' ! j = 1 \<and> results p' ! j = jobOf Parse w urls j"
    if same: "results p' = results p" "writes p' = writes p"
      and ph: "phases p' = (phases p)[i := v]" "v \<noteq> Idle" "v \<noteq> Fetching"
        "phases p ! i \<noteq> Idle" "phases p ! i \<noteq> Fetching" "i < ?n"
    for i v
  proof (intro allI impI)
    fix j assume j: "j < ?n"
    show "if phases p' ! j = Idle \<or> phases p' ! j = Fetching
            then writes p' ! j = 0 \<and> results p' ! j = zeroResult
            else writes p' ! j = 1 \<and> results p' ! j = jobOf Parse w urls j"
    proof (cases "j = i")
      case True
      with res j ph len show ?thesis by (auto simp: same)
    next
      case False
      with res j ph len show ?thesis by (auto simp: same)
    qed
  qed
  show ?thesis
  proof (cases ev)
    case Launch
    with st have g: "nextIdx p < ?n" "sem p < concurrency"
      and p': "p' = p\<lparr>nextIdx := nextIdx p + 1, sem := sem p + 1, wg := wg p + 1,
                    phases := (phases p)[nextIdx p := Fetching]\<rparr>"
      by (auto simp: step_def split: if_splits)
    from idle g have ph: "phases p ! nextIdx p = Idle" by simp
    have "sem p' = length (filter ?H (phases p'))"
      using upd [OF g(1), of ?H Fetching] ph sm by (simp add: p')
    moreover have "wg p' = length (filter ?W (phases p'))"
      using upd [OF g(1), of ?W Fetching] ph wgc by (simp add: p')
    moreover have "\<forall>i < ?n. (phases p' ! i = Idle) = (nextIdx p' \<le> i)"
      using idle len g by (auto simp: nth_list_update p')
    moreover have "\<forall>j < ?n. if phases p' ! j = Idle \<or> phases p' ! j = Fetching
            then writes p' ! j = 0 \<and> results p' ! j = zeroResult
            else writes p' ! j = 1 \<and> results p' ! j = jobOf Parse w urls j"
      using res len g ph by (auto simp: nth_list_update p')
    moreover have "length (phases p') = ?n" "length (results p') = ?n" "length (writes p') = ?n"
        "nextIdx p' \<le> ?n" "sem p' \<le> concurrency"
      using len g by (simp_all add: p')
    ultimately have "poolInv (jobOf Parse w urls) ?n p'"
      by (intro poolInvI)
    moreover have "progress p' = Suc (progress p)"
      using pr [OF g(1), of Fetching] ph by (simp add: p' progress_def)
    ultimately show ?thesis by simp
  next
    case (Write i)
    with st have g: "i < ?n" "phases p ! i = Fetching"
      and p': "p' = p\<lparr>phases := (phases p)[i := Written],
                    results := (results p)[i := jobOf Parse w urls i],
                    writes := (writes p)[i := writes p ! i + 1]\<rparr>"
      by (auto simp: step_def jobOf_def split: if_splits)
    from res g have w0: "writes p ! i = 0" by auto
    have "sem p' = length (filter ?H (phases p'))"
      using upd [OF g(1), of ?H Written] g(2) sm by (simp add: p')
    moreover have "wg p' = length (filter ?W (phases p'))"
      using upd [OF g(1), of ?W Written] g(2) wgc by (simp add: p')
    moreover have "\<forall>j < ?n. (phases p' ! j = Idle) = (nextIdx p' \<le> j)"
      using idle len g by (auto simp: nth_list_update p')
    moreover have "\<forall>j < ?n. if phases p' ! j = Idle \<or> phases p' ! j = Fetching
            then writes p' ! j = 0 \<and> results p' ! j = zeroResult
            else writes p' ! j = 1 \<and> results p' ! j = jobOf Parse w urls j"
    proof (intro allI impI)
      fix j assume j: "j < ?n"
      show "if phases p' ! j = Idle \<or> phases p' ! j = Fetching
            then writes p' ! j = 0 \<and> results p' ! j = zeroResult
            else writes p' ! j = 1 \<and> results p' ! j = jobOf Parse w urls j"
      proof (cases "j = i")
        case True
        with len g w0 show ?thesis by (simp add: p')
      next
        case False
        with res j len show ?thesis by (simp add: p')
      qed
    qed
    moreover have "length (phases p') = ?n" "length (results p') = ?n" "length (writes p') = ?n"
        "nextIdx p' \<le> ?n" "sem p' \<le> concurrency"
      using len nx sm(2) by (simp_all add: p')
    ultimately have "poolInv (jobOf Parse w urls) ?n p'"
      by (intro poolInvI)
    moreover have "progress p' = Suc (progress p)"
      using pr [OF g(1), of Written] g(2) by (simp add: p' progress_def)
    ultimately show ?thesis by simp
  next
    case (Release i)
    with st have g: "i < ?n" "phases p ! i = Written" "0 < sem p"
      and p': "p' = p\<lparr>sem := sem p - 1, phases := (phases p)[i := Released]\<rparr>"
      by (auto simp: step_def split: if_splits)
    have "sem p' = length (filter ?H (phases p'))"
      using upd [OF g(1), of ?H Released] g(2) sm by (simp add: p')
    moreover have "wg p' = length (filter ?W (phases p'))"
      using upd [OF g(1), of ?W Released] g(2) wgc by (simp add: p')
    moreover have "\<forall>j < ?n. (phases p' ! j = Idle) = (nextIdx p' \<le> j)"
      using idle len g by (auto simp: nth_list_update p')
    moreover have "\<forall>j < ?n. if phases p' ! j = Idle \<or> phases p' ! j = Fetching
            then writes p' ! j = 0 \<and> results p' ! j = zeroResult
            else writes p' ! j = 1 \<and> results p' ! j = jobOf Parse w urls j"
      using g by (intro other [of i Released]) (simp_all add: p')
    moreover have "length (phases p') = ?n" "length (results p') = ?n" "length (writes p') = ?n"
        "nextIdx p' \<le> ?n" "sem p' \<le> concurrency"
      using len nx sm(2) by (simp_all add: p')
    ultimately have "poolInv (jobOf Parse w urls) ?n p'"
      by (intro poolInvI)
    moreover have "progress p' = Suc (progress p)"
      using pr [OF g(1), of Released] g(2) by (simp add: p' progress_def)
    ultimately show ?thesis by simp
  next
    case (Done i)
    with st have g: "i < ?n" "phases p ! i = Released" "0 < wg p"
      and p': "p' = p\<lparr>wg := wg p - 1, phases := (phases p)[i := Finished]\<rparr>"
      by (auto simp: step_def split: if_splits)
    have "sem p' = length (filter ?H (phases p'))"
      using upd [OF g(1), of ?H Finished] g(2) sm by (simp add: p')
    moreover have "wg p' = length (filter ?W (phases p'))"
      using upd [OF g(1), of ?W Finished] g(2) wgc by (simp add: p')
    moreover have "\<forall>j < ?n. (phases p' ! j = Idle) = (nextIdx p' \<le> j)"
      using idle len g by (auto simp: nth_list_update p')
    moreover have "\<forall>j < ?n. if phases p' ! j = Idle \<or> phases p' ! j = Fetching
            then writes p' ! j = 0 \<and> results p' ! j = zeroResult
            else writes p' ! j = 1 \<and> results p' ! j = jobOf Parse w urls j"
      using g by (intro other [of i Finished]) (simp_all add: p')
    moreover have "length (phases p') = ?n" "length (results p') = ?n" "length (writes p') = ?n"
        "nextIdx p' \<le> ?n" "sem p' \<le> concurrency"
      using len nx sm(2) by (simp_all add: p')
    ultimately have "poolInv (jobOf Parse w urls) ?n p'"
      by (intro poolInvI)
    moreover have "progress p' = Suc (progress p)"
      using pr [OF g(1), of Finished] g(2) by (simp add: p' progress_def)
    ultimately show ?thesis by simp
  qed
qed

lemma run_inv:
  "poolInv (jobOf Parse w urls) (length urls) p \<Longrightarrow> run Parse w urls p evs = Some p' \<Longrightarrow>
     poolInv (jobOf Parse w urls) (length urls) p' \<and> progress p' = progress p + length evs"
proof (induction evs arbitrary: p)
  case Nil
  then show ?case by simp
next
  case (Cons ev evs)
  from Cons.prems(2) obtain q where q: "step Parse w urls p ev = Some q"
      "run Parse w urls q evs = Some p'"
    by (auto split: option.splits)
  from step_inv [OF Cons.prems(1) q(1)] Cons.IH [OF _ q(2)] show ?case by simp
qed

lemma reachable_inv:
  "run Parse w urls (initPool urls) evs = Some p \<Longrightarrow>
     poolInv (jobOf Parse w urls) (length urls) p \<and> progress p = length evs"
  using run_inv [OF initPool_inv, of Parse w urls evs p]
  by (simp add: progress_def initPool_def)

text \<open>A pool that is not drained can take a step, and the steps are bounded: no run
  gets stuck and every run ends.\<close>

lemma filter_none: "length (filter P xs) = 0 \<Longrightarrow> i < length xs \<Longrightarrow> \<not> P (xs ! i)"
  by (metis filter_empty_conv length_0_conv nth_mem)

lemma filter_some: "i < length xs \<Longrightarrow> P (xs ! i) \<Longrightarrow> 0 < length (filter P xs)"
  using filter_none by fastforce

lemma drained_finished:
  assumes inv: "poolInv job n p" and d: "nextIdx p = n" "wg p = 0" and i: "i < n"
  shows "phases p ! i = Finished"
proof -
  from inv i d(1) have "phases p ! i \<noteq> Idle" by (simp add: poolInv_def)
  moreover from inv d(2) i
  have "\<not> (phases p ! i = Fetching \<or> phases p ! i = Written \<or> phases p ! i = Released)"
    by (intro filter_none [where P = "\<lambda>ph. ph = Fetching \<or> ph = Written \<or> ph = Released"])
       (simp_all add: poolInv_def)
  ultimately show ?thesis by (cases "phases p ! i") simp_all
qed

lemma drained_results:
  assumes inv: "poolInv job n p" and d: "nextIdx p = n" "wg p = 0" and i: "i < n"
  shows "results p ! i = job i \<and> writes p ! i = 1"
proof -
  from drained_finished [OF inv d i] have "phases p ! i = Finished" .
  with inv i show ?thesis by (simp add: poolInv_def)
qed

lemma can_step:
  assumes inv: "poolInv (jobOf Parse w urls) (length urls) p" and nd: "\<not> drained urls p"
  shows "\<exists>ev p'. step Parse w urls p ev = Some p'"
proof -
  let ?n = "length urls"
  from inv have len: "length (phases p) = ?n"
    and sm: "sem p = length (filter (\<lambda>ph. ph = Fetching \<or> ph = Written) (phases p))"
    and wgc: "wg p = length (filter (\<lambda>ph. ph = Fetching \<or> ph = Written \<or> ph = Released) (phases p))"
    and nx: "nextIdx p \<le> ?n"
    by (simp_all add: poolInv_def holding_def)
  consider (f) i where "i < ?n" "phases p ! i = Fetching"
    | (w) i where "i < ?n" "phases p ! i = Written"
    | (r) i where "i < ?n" "phases p ! i = Released"
    | (none) "\<forall>i < ?n. phases p ! i = Idle \<or> phases p ! i = Finished"
    by (metis phase.exhaust)
  then show ?thesis
  proof cases
    case f
    then have "step Parse w urls p (Write i) \<noteq> None" by (simp add: step_def)
    then show ?thesis by blast
  next
    case w
    then have "0 < sem p" unfolding sm using len by (intro filter_some [of i]) simp_all
    with w have "step Parse w urls p (Release i) \<noteq> None" by (simp add: step_def)
    then show ?thesis by blast
  next
    case r
    then have "0 < wg p" unfolding wgc using len by (intro filter_some [of i]) simp_all
    with r have "step Parse w urls p (Done i) \<noteq> None" by (simp add: step_def)
    then show ?thesis by blast
  next
    case none
    have e1: "filter (\<lambda>ph. ph = Fetching \<or> ph = Written) (phases p) = []"
      using none len by (fastforce simp: filter_empty_conv in_set_conv_nth)
    have e2: "filter (\<lambda>ph. ph = Fetching \<or> ph = Written \<or> ph = Released) (phases p) = []"
      using none len by (fastforce simp: filter_empty_conv in_set_conv_nth)
    from e1 sm have "sem p = 0" by simp
    moreover from e2 wgc have "wg p = 0" by simp
    with nd nx have "nextIdx p < ?n" by (simp add: drained_def)
    ultimately have "step Parse w urls p Launch \<noteq> None"
      by (simp add: step_def concurrency_def)
    then show ?thesis by blast
  qed
qed

lemma progress_bound: "length (phases p) = n \<Longrightarrow> progress p \<le> 4 * n"
proof -
  have "sum_list (map phaseRank xs) \<le> 4 * length xs" for xs
  proof (induction xs)
    case Nil
    then show ?case by simp
  next
    case (Cons x xs)
    then show ?case by (cases x) simp_all
  qed
  then show "length (phases p) = n \<Longrightarrow> progress p \<le> 4 * n"
    by (auto simp: progress_def)
qed

lemma run_append:
  "run Parse w urls p evs = Some q \<Longrightarrow> run Parse w urls q evs' = Some r \<Longrightarrow>
     run Parse w urls p (evs @ evs') = Some r"
  by (induction evs arbitrary: p) (auto split: option.splits)

lemma can_drain:
  assumes "poolInv (jobOf Parse w urls) (length urls) p"
  shows "\<exists>evs p'. run Parse w urls p evs = Some p' \<and> drained urls p'"
  using assms
proof (induction "4 * length urls - progress p" arbitrary: p rule: less_induct)
  case less
  show ?case
  proof (cases "drained urls p")
    case True
    then have "run Parse w urls p [] = Some p \<and> drained urls p" by simp
    then show ?thesis by blast
  next
    case False
    from can_step [OF less.prems False] obtain ev q where q: "step Parse w urls p ev = Some q"
      by blast
    from step_inv [OF less.prems q]
    have inv: "poolInv (jobOf Parse w urls) (length urls) q" and pq: "progress q = Suc (progress p)"
      by simp_all
    from inv have "progress q \<le> 4 * length urls"
      by (intro progress_bound) (simp add: poolInv_def)
    with pq have "4 * length urls - progress q < 4 * length urls - progress p" by simp
    from less.hyps [OF this inv] obtain evs p' where
      "run Parse w urls q evs = Some p'" "drained urls p'" by blast
    with q have "run Parse w urls p (ev # evs) = Some p' \<and> drained urls p'" by simp
    then show ?thesis by blast
  qed
qed

end
